theory Spec2Isabelle
  imports Main
begin

section \<open>Python string primitives used by pywebscraper\<close>

text \<open>
  The source works on Python \<open>str\<close> values with \<open>split\<close>, \<open>join\<close>, indexing,
  slicing, \<open>startswith\<close> and \<open>replace\<close>. Each primitive is written out here as the
  interpreter computes it, for the one-character separators the source passes.
\<close>

text \<open>
  The exceptions that can leave the modelled functions. \<open>validate_url\<close> raises
  ValueError with three different messages, kept apart here.
\<close>

datatype url_problem = UrlEmpty | UrlBadScheme | UrlUnreachable

datatype error = ValueError url_problem | TypeError | OSError | AttributeError | IndexError

text \<open>\<open>s.split(sep)\<close> for a one-character \<open>sep\<close>: never the empty list, \<open>''.split('/') = ['']\<close>.\<close>

fun py_split :: "char \<Rightarrow> string \<Rightarrow> string list" where
  "py_split sep [] = [[]]"
| "py_split sep (c # cs) =
     (if c = sep then [] # py_split sep cs
      else (case py_split sep cs of
              [] \<Rightarrow> [[c]]
            | x # xs \<Rightarrow> (c # x) # xs))"

text \<open>\<open>sep.join(xs)\<close>.\<close>

fun py_join :: "string \<Rightarrow> string list \<Rightarrow> string" where
  "py_join sep [] = []"
| "py_join sep [x] = x"
| "py_join sep (x # y # ys) = x @ sep @ py_join sep (y # ys)"

text \<open>\<open>xs[i]\<close>: a negative index counts from the end, out of range raises IndexError.\<close>

definition py_index :: "'a list \<Rightarrow> int \<Rightarrow> error + 'a" where
  "py_index xs i =
     (if 0 \<le> i
      then (if nat i < length xs then Inr (xs ! nat i) else Inl IndexError)
      else (if nat (- i) \<le> length xs then Inr (xs ! (length xs - nat (- i)))
            else Inl IndexError))"

text \<open>\<open>s.startswith(p)\<close>.\<close>

definition startswith :: "string \<Rightarrow> string \<Rightarrow> bool" where
  "startswith s p = (take (length p) s = p)"

text \<open>
  \<open>s.replace(old, new)\<close>: every non-overlapping occurrence of \<open>old\<close>, scanning from the
  left; an empty \<open>old\<close> matches before every character and at the end.
\<close>

function replace_scan :: "string \<Rightarrow> string \<Rightarrow> string \<Rightarrow> string" where
  "replace_scan old new [] = []"
| "replace_scan old new (c # cs) =
     (if old \<noteq> [] \<and> startswith (c # cs) old
      then new @ replace_scan old new (drop (length old) (c # cs))
      else c # replace_scan old new cs)"
  by pat_completeness auto
termination
  by (relation "measure (\<lambda>(old, new, s). length s)") (auto simp: neq_Nil_conv)

definition py_replace :: "string \<Rightarrow> string \<Rightarrow> string \<Rightarrow> string" where
  "py_replace s old new =
     (if old = [] then new @ concat (map (\<lambda>c. c # new) s)
      else replace_scan old new s)"

section \<open>image.py: ImageContent\<close>

record ImageContent =
  url :: string
  alt_text :: string
  local_path :: "string option"

text \<open>\<open>self.url.split("/")[-1].split("?")[0]\<close>\<close>

definition get_filename :: "ImageContent \<Rightarrow> error + string" where
  "get_filename img =
     (case py_index (py_split CHR ''/'' (url img)) (- 1) of
        Inl e \<Rightarrow> Inl e
      | Inr seg \<Rightarrow> py_index (py_split CHR ''?'' seg) 0)"

text \<open>\<open>"/".join(self.url.split("/")[3:]).split("?")[0]\<close>\<close>

definition get_filepath :: "ImageContent \<Rightarrow> error + string" where
  "get_filepath img =
     py_index (py_split CHR ''?'' (py_join ''/'' (drop 3 (py_split CHR ''/'' (url img))))) 0"

subsection \<open>What the specification says the two names are\<close>

text \<open>The text after the last \<open>sep\<close> of a string (the whole string when there is none).\<close>

definition after_last :: "char \<Rightarrow> string \<Rightarrow> string" where
  "after_last sep s = rev (takeWhile (\<lambda>c. c \<noteq> sep) (rev s))"

text \<open>A string with everything from its first \<open>?\<close> on removed.\<close>

definition strip_query :: "string \<Rightarrow> string" where
  "strip_query s = takeWhile (\<lambda>c. c \<noteq> CHR ''?'') s"

text \<open>
  The string with its first \<open>n\<close> \<open>sep\<close>-delimited segments (and their separators) removed;
  empty when it has no more than \<open>n\<close> segments.
\<close>

fun drop_segments :: "nat \<Rightarrow> char \<Rightarrow> string \<Rightarrow> string" where
  "drop_segments 0 sep s = s"
| "drop_segments (Suc n) sep s =
     (case dropWhile (\<lambda>c. c \<noteq> sep) s of
        [] \<Rightarrow> []
      | _ # rest \<Rightarrow> drop_segments n sep rest)"


section \<open>The parsed document\<close>

text \<open>
  The HTML parser is a collaborator; the model starts from the tree it returns. A tag has
  a name, the tokens of its \<open>class\<close> attribute (the parser splits this attribute into a
  list), its other attributes (a dict, looked up by key) and its children. The document
  object holds the top-level nodes.
\<close>

datatype node =
    Tag string "string list" "(string \<times> string) list" "node list"
  | NavigableString string

type_synonym document = "node list"

section \<open>The outside world: network and file system\<close>

text \<open>
  The HTTP transport and the file system are not part of the repository. The model keeps a
  log of the requests made, in order, and the files written; what the transport and the
  operating system answer is a parameter (\<open>env\<close>). An answer may depend on the requests made
  so far, so the same URL can be reachable at one moment and not at another.
  \<open>print\<close> output is not modelled.
\<close>

datatype event = Head string | Get string

record world =
  requests :: "event list"
  files :: "string \<rightharpoonup> string"

record env =
  head_ok :: "event list \<Rightarrow> string \<Rightarrow> bool"
    \<comment> \<open>\<open>requests.head(url)\<close> then \<open>raise_for_status()\<close> raise no RequestException\<close>
  get_content :: "event list \<Rightarrow> string \<Rightarrow> string option"
    \<comment> \<open>\<open>requests.get(url)\<close> then \<open>raise_for_status()\<close>: the body, None on RequestException\<close>
  dir_ok :: "string \<Rightarrow> bool"
    \<comment> \<open>the directory exists or \<open>os.makedirs(d, exist_ok=True)\<close> succeeds\<close>
  open_ok :: "string \<Rightarrow> bool"
    \<comment> \<open>\<open>open(p, "wb")\<close> succeeds\<close>
  parse_html :: "string option \<Rightarrow> error + document"
    \<comment> \<open>\<open>BeautifulSoup(html, "html.parser")\<close>, where \<open>html\<close> is None after a failed fetch\<close>

definition is_get :: "event \<Rightarrow> bool" where
  "is_get e = (case e of Get _ \<Rightarrow> True | Head _ \<Rightarrow> False)"

text \<open>\<open>os.path.join(a, b)\<close> on POSIX, two arguments.\<close>

definition os_path_join :: "string \<Rightarrow> string \<Rightarrow> string" where
  "os_path_join a b =
     (if startswith b ''/'' then b
      else if a = [] \<or> last a = CHR ''/'' then a @ b
      else a @ ''/'' @ b)"

text \<open>\<open>os.path.dirname(p)\<close> on POSIX.\<close>

definition dirname :: "string \<Rightarrow> string" where
  "dirname p =
     (let i = length p - length (after_last CHR ''/'' p);
          head = take i p
      in if head \<noteq> [] \<and> head \<noteq> replicate (length head) CHR ''/''
         then rev (dropWhile (\<lambda>c. c = CHR ''/'') (rev head))
         else head)"

section \<open>utils.py: validate\_url\<close>

definition validate_url :: "env \<Rightarrow> string \<Rightarrow> world \<Rightarrow> (error + unit) \<times> world" where
  "validate_url ev u w =
     (if u = [] then (Inl (ValueError UrlEmpty), w)
      else if \<not> startswith u ''http://'' \<and> \<not> startswith u ''https://''
      then (Inl (ValueError UrlBadScheme), w)
      else if head_ok ev (requests w) u
      then (Inr (), w\<lparr>requests := requests w @ [Head u]\<rparr>)
      else (Inl (ValueError UrlUnreachable), w\<lparr>requests := requests w @ [Head u]\<rparr>))"

section \<open>image.py: construction, download and save\<close>

text \<open>The dataclass constructor: \<open>__post_init__\<close> validates the URL.\<close>

definition new_ImageContent ::
  "env \<Rightarrow> string \<Rightarrow> string \<Rightarrow> world \<Rightarrow> (error + ImageContent) \<times> world" where
  "new_ImageContent ev u alt w =
     (case validate_url ev u w of
        (Inl e, w') \<Rightarrow> (Inl e, w')
      | (Inr _, w') \<Rightarrow> (Inr \<lparr>url = u, alt_text = alt, local_path = None\<rparr>, w'))"

text \<open>\<open>_download\<close>: the bytes, or None after a RequestException was caught and printed.\<close>

definition download :: "env \<Rightarrow> ImageContent \<Rightarrow> world \<Rightarrow> string option \<times> world" where
  "download ev img w =
     (get_content ev (requests w) (url img), w\<lparr>requests := requests w @ [Get (url img)]\<rparr>)"

text \<open>
  \<open>save\<close>: the file is opened (created or truncated) before \<open>f.write(image_content)\<close>
  runs, and \<open>f.write(None)\<close> raises TypeError.
\<close>

definition save ::
  "env \<Rightarrow> ImageContent \<Rightarrow> string \<Rightarrow> bool \<Rightarrow> world \<Rightarrow> (error + string) \<times> ImageContent \<times> world" where
  "save ev img path use_subdirectories w =
     (case (if use_subdirectories then get_filepath img else get_filename img) of
        Inl e \<Rightarrow> (Inl e, img, w)
      | Inr filename \<Rightarrow>
          (let full_path = os_path_join path filename;
               base_path = dirname full_path
           in if \<not> dir_ok ev base_path then (Inl OSError, img, w)
              else (case download ev img w of
                      (image_content, w1) \<Rightarrow>
                        if \<not> open_ok ev full_path then (Inl OSError, img, w1)
                        else (case image_content of
                                None \<Rightarrow>
                                  (Inl TypeError, img,
                                   w1\<lparr>files := (files w1)(full_path \<mapsto> [])\<rparr>)
                              | Some bytes \<Rightarrow>
                                  (Inr full_path, img\<lparr>local_path := Some full_path\<rparr>,
                                   w1\<lparr>files := (files w1)(full_path \<mapsto> bytes)\<rparr>)))))"

subsection \<open>Searching the document\<close>

text \<open>Every node below a node, in document order.\<close>

fun descendants :: "node \<Rightarrow> node list" where
  "descendants (Tag n cl at cs) = concat (map (\<lambda>c. c # descendants c) cs)"
| "descendants (NavigableString t) = []"

definition soup_descendants :: "document \<Rightarrow> node list" where
  "soup_descendants d = concat (map (\<lambda>c. c # descendants c) d)"

fun is_tag :: "string \<Rightarrow> node \<Rightarrow> bool" where
  "is_tag nm (Tag n cl at cs) = (n = nm)"
| "is_tag nm (NavigableString t) = False"

fun has_class :: "string \<Rightarrow> node \<Rightarrow> bool" where
  "has_class tok (Tag n cl at cs) = (tok \<in> set cl)"
| "has_class tok (NavigableString t) = False"

text \<open>\<open>tag.get(key)\<close>\<close>

fun tag_get :: "node \<Rightarrow> string \<Rightarrow> string option" where
  "tag_get (Tag n cl at cs) key = map_of at key"
| "tag_get (NavigableString t) key = None"

text \<open>\<open>soup.find_all(name)\<close>, \<open>soup.find(name)\<close>, \<open>soup.find("div", {"class": tok})\<close>, \<open>soup.body\<close>\<close>

definition find_all :: "string \<Rightarrow> document \<Rightarrow> node list" where
  "find_all nm d = filter (is_tag nm) (soup_descendants d)"

definition find_tag :: "string \<Rightarrow> document \<Rightarrow> node option" where
  "find_tag nm d = List.find (is_tag nm) (soup_descendants d)"

definition find_tag_class :: "string \<Rightarrow> string \<Rightarrow> document \<Rightarrow> node option" where
  "find_tag_class nm tok d =
     List.find (\<lambda>x. is_tag nm x \<and> has_class tok x) (soup_descendants d)"

definition body :: "document \<Rightarrow> node option" where
  "body d = find_tag ''body'' d"

section \<open>scraper.py: PyWebScraper\<close>

record PyWebScraper =
  page_url :: string
  soup :: document
  content :: "node option"
  images :: "ImageContent list option"

text \<open>Python's \<open>a or b\<close> on values that are None or a tag (a tag is always truthy).\<close>

definition py_or :: "'a option \<Rightarrow> 'a option \<Rightarrow> 'a option" where
  "py_or a b = (case a of None \<Rightarrow> b | Some x \<Rightarrow> Some x)"

text \<open>\<open>extract_content\<close>: no statement of it raises; it returns the region or None.\<close>

definition extract_content :: "PyWebScraper \<Rightarrow> (error + node option) \<times> PyWebScraper" where
  "extract_content s =
     (let c = py_or (find_tag ''article'' (soup s))
                (py_or (find_tag_class ''div'' ''content'' (soup s)) (body (soup s)));
          c' = (if c \<noteq> None then c else body (soup s))
      in (Inr c', s\<lparr>content := c'\<rparr>))"

text \<open>The loop of \<open>extract_images\<close> over the tags \<open>find_all("img")\<close> returned.\<close>

fun collect_images :: "node list \<Rightarrow> (string \<times> string) list \<Rightarrow> (string \<times> string) list" where
  "collect_images [] acc = acc"
| "collect_images (img # rest) acc =
     (let img_url = tag_get img ''src'';
          alt = (case tag_get img ''alt'' of None \<Rightarrow> ''Image'' | Some a \<Rightarrow> a)
      in case img_url of
           None \<Rightarrow> collect_images rest acc
         | Some u \<Rightarrow>
             if u \<noteq> [] then collect_images rest (acc @ [(alt, u)])
             else collect_images rest acc)"

definition extract_images :: "PyWebScraper \<Rightarrow> (string \<times> string) list" where
  "extract_images s = collect_images (find_all ''img'' (soup s)) []"

text \<open>The list comprehension of \<open>get_images\<close>: the first constructor that raises ends it.\<close>

fun build_images ::
  "env \<Rightarrow> (string \<times> string) list \<Rightarrow> world \<Rightarrow> (error + ImageContent list) \<times> world" where
  "build_images ev [] w = (Inr [], w)"
| "build_images ev ((alt, u) # rest) w =
     (case new_ImageContent ev u alt w of
        (Inl e, w') \<Rightarrow> (Inl e, w')
      | (Inr img, w') \<Rightarrow>
          (case build_images ev rest w' of
             (Inl e, w'') \<Rightarrow> (Inl e, w'')
           | (Inr imgs, w'') \<Rightarrow> (Inr (img # imgs), w'')))"

definition get_images ::
  "env \<Rightarrow> PyWebScraper \<Rightarrow> world \<Rightarrow> (error + ImageContent list) \<times> PyWebScraper \<times> world" where
  "get_images ev s w =
     (case images s of
        Some imgs \<Rightarrow> (Inr imgs, s, w)
      | None \<Rightarrow>
          (case build_images ev (extract_images s) w of
             (Inl e, w') \<Rightarrow> (Inl e, s, w')
           | (Inr imgs, w') \<Rightarrow> (Inr imgs, s\<lparr>images := Some imgs\<rparr>, w')))"

text \<open>\<open>not image.local_path\<close> is false exactly for a non-empty string.\<close>

definition has_local_path :: "ImageContent \<Rightarrow> bool" where
  "has_local_path img = (case local_path img of None \<Rightarrow> False | Some p \<Rightarrow> p \<noteq> [])"

text \<open>
  The loop of \<open>_process_images\<close>. The images are objects mutated in place, so the list
  comes back with the changes made up to the point the loop ended or raised.
\<close>

fun process_loop ::
  "env \<Rightarrow> string \<Rightarrow> string \<Rightarrow> bool \<Rightarrow> string \<Rightarrow> ImageContent list \<Rightarrow> world
     \<Rightarrow> (error + string) \<times> ImageContent list \<times> world" where
  "process_loop ev path save_path flatten_images c [] w = (Inr c, [], w)"
| "process_loop ev path save_path flatten_images c (img # rest) w =
     (case (if \<not> has_local_path img
            then save ev img save_path (\<not> flatten_images) w
            else (Inr [], img, w)) of
        (Inl e, img', w') \<Rightarrow> (Inl e, img' # rest, w')
      | (Inr _, img', w') \<Rightarrow>
          (case local_path img' of
             None \<Rightarrow> (Inl AttributeError, img' # rest, w')
           | Some lp \<Rightarrow>
               (case process_loop ev path save_path flatten_images
                       (py_replace c (url img') (py_replace lp path [])) rest w' of
                  (r, rest', w'') \<Rightarrow> (r, img' # rest', w''))))"

definition process_images ::
  "env \<Rightarrow> PyWebScraper \<Rightarrow> string \<Rightarrow> string \<Rightarrow> string \<Rightarrow> bool \<Rightarrow> world
     \<Rightarrow> (error + string) \<times> PyWebScraper \<times> world" where
  "process_images ev s c path images_dir_name flatten_images w =
     (let save_path = os_path_join path images_dir_name
      in case get_images ev s w of
           (Inl e, s', w') \<Rightarrow> (Inl e, s', w')
         | (Inr imgs, s', w') \<Rightarrow>
             (case process_loop ev path save_path flatten_images c imgs w' of
                (r, imgs', w'') \<Rightarrow> (r, s'\<lparr>images := Some imgs'\<rparr>, w'')))"


text \<open>\<open>_fetch_html\<close>: the page text, or None after a RequestException was caught.\<close>

definition fetch_html :: "env \<Rightarrow> string \<Rightarrow> world \<Rightarrow> string option \<times> world" where
  "fetch_html ev u w = (get_content ev (requests w) u, w\<lparr>requests := requests w @ [Get u]\<rparr>)"

text \<open>\<open>__init__\<close>: validate, fetch, parse.\<close>

definition init :: "env \<Rightarrow> string \<Rightarrow> world \<Rightarrow> (error + PyWebScraper) \<times> world" where
  "init ev u w =
     (case validate_url ev u w of
        (Inl e, w') \<Rightarrow> (Inl e, w')
      | (Inr _, w') \<Rightarrow>
          (case fetch_html ev u w' of
             (html, w'') \<Rightarrow>
               (case parse_html ev html of
                  Inl e \<Rightarrow> (Inl e, w'')
                | Inr d \<Rightarrow>
                    (Inr \<lparr>page_url = u, soup = d, content = None, images = None\<rparr>, w''))))"

section \<open>The specification's reading of two operations\<close>

text \<open>
  Content-region selection as the specification words it: the first article, else the
  first element of any tag whose class attribute has the token \<open>content\<close>, else the body.
\<close>

definition spec_extract_region :: "document \<Rightarrow> node option" where
  "spec_extract_region d =
     py_or (find_tag ''article'' d)
       (py_or (List.find (has_class ''content'') (soup_descendants d)) (body d))"

text \<open>
  The rewritten reference as the specification words it: the local path with the base
  output directory removed from its front only.
\<close>

definition strip_prefix :: "string \<Rightarrow> string \<Rightarrow> string" where
  "strip_prefix p s = (if startswith s p then drop (length p) s else s)"

definition spec_rewrite :: "string \<Rightarrow> string \<Rightarrow> string \<Rightarrow> string \<Rightarrow> string" where
  "spec_rewrite c remote lp base = py_replace c remote (strip_prefix base lp)"

section \<open>Concrete pages and worlds\<close>

definition world0 :: world where
  "world0 = \<lparr>requests = [], files = Map.empty\<rparr>"

text \<open>A network where every request succeeds and every file can be written.\<close>

definition env_up :: env where
  "env_up = \<lparr>head_ok = (\<lambda>h u. True), get_content = (\<lambda>h u. Some ''bytes''),
     dir_ok = (\<lambda>d. True), open_ok = (\<lambda>p. True),
     parse_html = (\<lambda>h. case h of None \<Rightarrow> Inl TypeError | Some t \<Rightarrow> Inr [])\<rparr>"

text \<open>The same network, except that downloading \<open>https://x.com/a.png\<close> fails.\<close>

definition env_a_down :: env where
  "env_a_down = env_up\<lparr>get_content :=
     (\<lambda>h u. if u = ''https://x.com/a.png'' then None else Some ''bytes'')\<rparr>"

text \<open>The same network, except that \<open>https://x.com/gone.png\<close> does not answer a HEAD request.\<close>

definition env_gone :: env where
  "env_gone = env_up\<lparr>head_ok := (\<lambda>h u. u \<noteq> ''https://x.com/gone.png'')\<rparr>"

definition img_tag :: "string \<Rightarrow> string \<Rightarrow> node" where
  "img_tag src alt = Tag ''img'' [] [(''src'', src), (''alt'', alt)] []"

definition page_of :: "document \<Rightarrow> PyWebScraper" where
  "page_of d = \<lparr>page_url = ''https://x.com/'', soup = d, content = None, images = None\<rparr>"

text \<open>\<open><article><img src=a.png alt=A><img src=b.png alt=B></article>\<close>\<close>

definition page_two_images :: PyWebScraper where
  "page_two_images = page_of
     [Tag ''article'' [] []
        [img_tag ''https://x.com/a.png'' ''A'', img_tag ''https://x.com/b.png'' ''B'']]"

text \<open>\<open><html><body><section class="content">text</section></body></html>\<close>\<close>

definition section_content :: node where
  "section_content = Tag ''section'' [''content''] [] [NavigableString ''text'']"

definition page_section :: PyWebScraper where
  "page_section = page_of [Tag ''html'' [] [] [Tag ''body'' [] [] [section_content]]]"

text \<open>A document with neither article, content element nor body: \<open><p>text</p>\<close>.\<close>

definition page_bare :: PyWebScraper where
  "page_bare = page_of [Tag ''p'' [] [] [NavigableString ''text'']]"

text \<open>\<open><article><img src="https://example.com/output/a.png" alt="A"></article>\<close>\<close>

definition page_output_dir :: PyWebScraper where
  "page_output_dir = page_of
     [Tag ''article'' [] [] [img_tag ''https://example.com/output/a.png'' ''A'']]"


text \<open>\<open><article><img src=a.png alt=A><img src=gone.png alt=G></article>\<close>\<close>

definition page_gone :: PyWebScraper where
  "page_gone = page_of
     [Tag ''article'' [] []
        [img_tag ''https://x.com/a.png'' ''A'', img_tag ''https://x.com/gone.png'' ''G'']]"

text \<open>
  The pair \<open>extract_images\<close> makes of an image tag, and the test of its \<open>if img_url:\<close>.
\<close>

definition image_pair :: "node \<Rightarrow> string \<times> string" where
  "image_pair t =
     (case tag_get t ''alt'' of None \<Rightarrow> ''Image'' | Some a \<Rightarrow> a,
      case tag_get t ''src'' of None \<Rightarrow> [] | Some u \<Rightarrow> u)"

definition has_source :: "node \<Rightarrow> bool" where
  "has_source t = (case tag_get t ''src'' of None \<Rightarrow> False | Some u \<Rightarrow> u \<noteq> [])"

text \<open>
  Image-reference extraction as the claim words it: one pair for every \<open>img\<close> element
  that has a source-URL attribute.
\<close>

definition spec_extract_images :: "document \<Rightarrow> (string \<times> string) list" where
  "spec_extract_images d =
     map image_pair (filter (\<lambda>t. tag_get t ''src'' \<noteq> None) (find_all ''img'' d))"

text \<open>\<open><article><img src="" alt="A"></article>\<close>\<close>

definition img_empty_src :: node where
  "img_empty_src = Tag ''img'' [] [(''src'', []), (''alt'', ''A'')] []"

definition page_empty_src :: PyWebScraper where
  "page_empty_src = page_of [Tag ''article'' [] [] [img_empty_src]]"

text \<open>A page whose one image is already saved: \<open>_images\<close> holds it with its local path.\<close>

definition page_persisted :: PyWebScraper where
  "page_persisted = (page_of [Tag ''article'' [] [] [img_tag ''https://x.com/a.png'' ''A'']])
     \<lparr>images := Some [\<lparr>url = ''https://x.com/a.png'', alt_text = ''A'',
                        local_path = Some ''out/images/a.png''\<rparr>]\<rparr>"

section \<open>Facts about the string primitives\<close>

lemma py_split_nonempty: "py_split sep s \<noteq> []"
  by (induction s) (auto split: list.splits)

lemma py_split_unfold:
  "py_split sep s = takeWhile (\<lambda>c. c \<noteq> sep) s #
     (case dropWhile (\<lambda>c. c \<noteq> sep) s of [] \<Rightarrow> [] | _ # rest \<Rightarrow> py_split sep rest)"
  by (induction s) (auto split: list.splits simp: py_split_nonempty)

lemma hd_py_split: "hd (py_split sep s) = takeWhile (\<lambda>c. c \<noteq> sep) s"
  by (subst py_split_unfold) simp

lemma py_split_no_sep: "sep \<notin> set s \<Longrightarrow> py_split sep s = [s]"
  by (induction s) auto

lemma py_split_has_sep: "sep \<in> set s \<Longrightarrow> tl (py_split sep s) \<noteq> []"
  by (induction s) (auto split: list.splits simp: py_split_nonempty)

lemma last_py_split: "last (py_split sep s) = after_last sep s"
  unfolding after_last_def
proof (induction s)
  case Nil
  then show ?case by simp
next
  case (Cons c s)
  show ?case
  proof (cases "c = sep")
    case True
    then show ?thesis using Cons py_split_nonempty[of sep s]
      by (auto simp: takeWhile_append takeWhile_eq_all_conv[THEN iffD2])
  next
    case False
    show ?thesis
    proof (cases "sep \<in> set s")
      case True
      then obtain x y ys where "py_split sep s = x # y # ys"
        using py_split_has_sep[of sep s] py_split_nonempty[of sep s]
        by (cases "py_split sep s"; cases "tl (py_split sep s)") auto
      then show ?thesis using Cons False True
        by (auto simp: takeWhile_append)
    next
      case no_sep: False
      then show ?thesis using False
        by (simp add: py_split_no_sep takeWhile_append takeWhile_eq_all_conv[THEN iffD2])
    qed
  qed
qed

lemma py_index_last: "xs \<noteq> [] \<Longrightarrow> py_index xs (- 1) = Inr (last xs)"
  by (cases xs rule: rev_cases) (auto simp: py_index_def nth_append)

lemma py_index_hd: "xs \<noteq> [] \<Longrightarrow> py_index xs 0 = Inr (hd xs)"
  by (cases xs) (auto simp: py_index_def)

lemma py_join_Cons: "ys \<noteq> [] \<Longrightarrow> py_join sep (x # ys) = x @ sep @ py_join sep ys"
  by (cases ys) auto

lemma py_join_Cons_Cons: "py_join sep ((a # x) # xs) = a # py_join sep (x # xs)"
  by (cases xs) auto

lemma py_join_split: "py_join [sep] (py_split sep s) = s"
  by (induction s)
     (auto split: list.splits simp: py_join_Cons py_join_Cons_Cons py_split_nonempty)

lemma py_join_drop_split: "py_join [sep] (drop n (py_split sep s)) = drop_segments n sep s"
proof (induction n arbitrary: s)
  case 0
  then show ?case by (simp add: py_join_split)
next
  case (Suc n)
  show ?case
  proof (cases "dropWhile (\<lambda>c. c \<noteq> sep) s")
    case Nil
    then show ?thesis
      by (subst py_split_unfold)
         (simp only: list.case drop_Suc_Cons drop_Nil py_join.simps drop_segments.simps)
  next
    case (Cons d rest)
    then show ?thesis
      by (subst py_split_unfold)
         (simp only: list.case drop_Suc_Cons drop_segments.simps Suc)
  qed
qed

lemma first_of_query_split: "py_index (py_split CHR ''?'' s) 0 = Inr (strip_query s)"
  by (simp add: py_index_hd py_split_nonempty hd_py_split strip_query_def)

lemma drop_segment_no_sep:
  "sep \<notin> set seg \<Longrightarrow> drop_segments (Suc n) sep (seg @ sep # rest) = drop_segments n sep rest"
proof -
  assume "sep \<notin> set seg"
  then have "dropWhile (\<lambda>c. c \<noteq> sep) seg = []"
    by (auto simp: dropWhile_eq_Nil_conv)
  then have "dropWhile (\<lambda>c. c \<noteq> sep) (seg @ sep # rest) = sep # rest"
    using \<open>sep \<notin> set seg\<close> by (simp add: dropWhile_append)
  then show ?thesis by simp
qed

section \<open>File names derived from the URL\<close>

text \<open>
  Claim C5. For every URL string, \<open>get_filename\<close> returns without raising, and what it
  returns is the text after the last \<open>/\<close> of the URL with everything from the first \<open>?\<close>
  of that text removed, however many segments come before and whatever the query holds.
\<close>

theorem get_filename_last_segment:
  "get_filename img = Inr (strip_query (after_last CHR ''/'' (url img)))"
  by (simp add: get_filename_def py_index_last py_split_nonempty last_py_split
      first_of_query_split)

text \<open>
  Claim C6. For every URL string, \<open>get_filepath\<close> returns without raising the URL with
  its first three \<open>/\<close>-delimited segments removed and everything from the first \<open>?\<close> of
  the remainder removed. For a URL \<open>scheme://host/rest\<close> the three segments are the
  scheme, the empty segment and the host, so the result is \<open>rest\<close> without its query.
\<close>

theorem get_filepath_without_authority:
  "get_filepath img = Inr (strip_query (drop_segments 3 CHR ''/'' (url img))) \<and>
   (\<forall>scheme host rest.
      CHR ''/'' \<notin> set scheme \<and> CHR ''/'' \<notin> set host \<and>
      url img = scheme @ ''//'' @ host @ ''/'' @ rest
      \<longrightarrow> get_filepath img = Inr (strip_query rest))"
proof -
  have general: "get_filepath img = Inr (strip_query (drop_segments 3 CHR ''/'' (url img)))"
    by (simp add: get_filepath_def first_of_query_split py_join_drop_split)
  have shape: "drop_segments 3 CHR ''/'' (scheme @ ''//'' @ host @ ''/'' @ rest) = rest"
    if "CHR ''/'' \<notin> set scheme" "CHR ''/'' \<notin> set host" for scheme host rest
  proof -
    have "drop_segments 3 CHR ''/'' (scheme @ CHR ''/'' # ([] @ CHR ''/'' # (host @ CHR ''/'' # rest)))
          = drop_segments 0 CHR ''/'' rest"
      using that
      by (simp only: numeral_3_eq_3 drop_segment_no_sep set_simps empty_iff not_False_eq_True)
    then show ?thesis by simp
  qed
  show ?thesis using general shape by simp
qed

theorem get_filepath_without_authority_witness:
  "get_filepath \<lparr>url = ''https://example.com/a/b/image.jpg?x=1'', alt_text = ''A'',
     local_path = None\<rparr> = Inr ''a/b/image.jpg''"
proof -
  let ?img = "\<lparr>url = ''https://example.com/a/b/image.jpg?x=1'', alt_text = ''A'',
     local_path = None\<rparr>"
  have hyp: "CHR ''/'' \<notin> set ''https:'' \<and> CHR ''/'' \<notin> set ''example.com'' \<and>
     url ?img = ''https:'' @ ''//'' @ ''example.com'' @ ''/'' @ ''a/b/image.jpg?x=1''"
    by simp
  from get_filepath_without_authority[of ?img, THEN conjunct2, rule_format, OF hyp]
  show ?thesis by (simp add: strip_query_def)
qed

section \<open>URL validation\<close>

lemma validate_url_requests:
  "requests (snd (validate_url ev u w)) = requests w \<or>
   requests (snd (validate_url ev u w)) = requests w @ [Head u]"
  by (simp add: validate_url_def)

lemma validate_url_error_kind:
  "fst (validate_url ev u w) = Inl e \<Longrightarrow> \<exists>p. e = ValueError p"
  by (auto simp: validate_url_def split: if_splits)

lemma validate_url_files: "files (snd (validate_url ev u w)) = files w"
  by (simp add: validate_url_def)

text \<open>
  Claim C7. \<open>validate_url\<close> raises exactly when the URL is empty, or starts with neither
  \<open>http://\<close> nor \<open>https://\<close>, or the HEAD probe fails; what it raises is always the
  invalid-URL error (ValueError). When it raises inside the constructor of the scraper,
  the constructor raises the same error and no GET request has been added to the log: the
  page is not fetched.
\<close>

theorem validate_url_raises_exactly:
  "(isl (fst (validate_url ev u w)) \<longleftrightarrow>
      u = [] \<or> (\<not> startswith u ''http://'' \<and> \<not> startswith u ''https://'')
      \<or> \<not> head_ok ev (requests w) u) \<and>
   (\<forall>e. fst (validate_url ev u w) = Inl e \<longrightarrow>
      (\<exists>p. e = ValueError p) \<and>
      fst (init ev u w) = Inl e \<and>
      filter is_get (requests (snd (init ev u w))) = filter is_get (requests w))"
proof -
  have iff: "isl (fst (validate_url ev u w)) \<longleftrightarrow>
      u = [] \<or> (\<not> startswith u ''http://'' \<and> \<not> startswith u ''https://'')
      \<or> \<not> head_ok ev (requests w) u"
    by (simp add: validate_url_def)
  have rest: "(\<exists>p. e = ValueError p) \<and> fst (init ev u w) = Inl e \<and>
      filter is_get (requests (snd (init ev u w))) = filter is_get (requests w)"
    if h: "fst (validate_url ev u w) = Inl e" for e
  proof -
    obtain w' where v: "validate_url ev u w = (Inl e, w')"
      using h by (cases "validate_url ev u w") simp
    have i: "init ev u w = (Inl e, w')"
      by (simp add: init_def v)
    have "filter is_get (requests w') = filter is_get (requests w)"
      using validate_url_requests[of ev u w] v by (auto simp: is_get_def)
    then show ?thesis using validate_url_error_kind[OF h] i v by simp
  qed
  show ?thesis using iff rest by blast
qed

theorem validate_url_raises_exactly_witness:
  "fst (validate_url env_gone ''https://x.com/gone.png'' world0) = Inl (ValueError UrlUnreachable) \<and>
   fst (init env_gone ''https://x.com/gone.png'' world0) = Inl (ValueError UrlUnreachable) \<and>
   filter is_get (requests (snd (init env_gone ''https://x.com/gone.png'' world0))) = []"
proof -
  have h: "fst (validate_url env_gone ''https://x.com/gone.png'' world0) = Inl (ValueError UrlUnreachable)"
    by code_simp
  have w: "filter is_get (requests world0) = []"
    by code_simp
  from validate_url_raises_exactly[of env_gone "''https://x.com/gone.png''" world0,
      THEN conjunct2, rule_format, OF h] h w
  show ?thesis by simp
qed

lemma new_ImageContent_requests:
  "requests (snd (new_ImageContent ev u alt w)) = requests w \<or>
   requests (snd (new_ImageContent ev u alt w)) = requests w @ [Head u]"
  by (simp add: new_ImageContent_def validate_url_def)

lemma new_ImageContent_files: "files (snd (new_ImageContent ev u alt w)) = files w"
  by (simp add: new_ImageContent_def validate_url_def)

lemma new_ImageContent_fails_iff:
  "isl (fst (new_ImageContent ev u alt w)) \<longleftrightarrow>
     u = [] \<or> (\<not> startswith u ''http://'' \<and> \<not> startswith u ''https://'')
     \<or> \<not> head_ok ev (requests w) u"
  by (simp add: new_ImageContent_def validate_url_def)

lemma new_ImageContent_error_kind:
  "fst (new_ImageContent ev u alt w) = Inl e \<Longrightarrow> \<exists>p. e = ValueError p"
  by (auto simp: new_ImageContent_def validate_url_def split: if_splits)

lemma build_images_gets:
  "filter is_get (requests (snd (build_images ev ps w))) = filter is_get (requests w)"
proof (induction ps arbitrary: w)
  case Nil
  then show ?case by simp
next
  case (Cons p ps)
  obtain alt u where p: "p = (alt, u)" by (cases p)
  obtain r w' where n: "new_ImageContent ev u alt w = (r, w')"
    by (cases "new_ImageContent ev u alt w")
  have g: "filter is_get (requests w') = filter is_get (requests w)"
    using new_ImageContent_requests[of ev u alt w] n by (auto simp: is_get_def)
  show ?case
  proof (cases r)
    case (Inl e)
    then show ?thesis using p n g by simp
  next
    case (Inr img)
    obtain r2 w2 where b: "build_images ev ps w' = (r2, w2)"
      by (cases "build_images ev ps w'")
    have "filter is_get (requests w2) = filter is_get (requests w')"
      using Cons.IH[of w'] b by simp
    then show ?thesis using p n g Inr b by (cases r2) simp_all
  qed
qed

lemma build_images_files: "files (snd (build_images ev ps w)) = files w"
proof (induction ps arbitrary: w)
  case Nil
  then show ?case by simp
next
  case (Cons p ps)
  obtain alt u where p: "p = (alt, u)" by (cases p)
  obtain r w' where n: "new_ImageContent ev u alt w = (r, w')"
    by (cases "new_ImageContent ev u alt w")
  have g: "files w' = files w"
    using new_ImageContent_files[of ev u alt w] n by simp
  show ?case
  proof (cases r)
    case (Inl e)
    then show ?thesis using p n g by simp
  next
    case (Inr img)
    obtain r2 w2 where b: "build_images ev ps w' = (r2, w2)"
      by (cases "build_images ev ps w'")
    have "files w2 = files w'"
      using Cons.IH[of w'] b by simp
    then show ?thesis using p n g Inr b by (cases r2) simp_all
  qed
qed

lemma build_images_aborts:
  assumes "(alt, u) \<in> set ps"
    and "u = [] \<or> (\<not> startswith u ''http://'' \<and> \<not> startswith u ''https://'')
         \<or> (\<forall>h. \<not> head_ok ev h u)"
  shows "\<exists>p. fst (build_images ev ps w) = Inl (ValueError p)"
  using assms(1)
proof (induction ps arbitrary: w)
  case Nil
  then show ?case by simp
next
  case (Cons q ps)
  obtain alt' u' where q: "q = (alt', u')" by (cases q)
  obtain r w' where n: "new_ImageContent ev u' alt' w = (r, w')"
    by (cases "new_ImageContent ev u' alt' w")
  show ?case
  proof (cases r)
    case (Inl e)
    then show ?thesis using q n new_ImageContent_error_kind[of ev u' alt' w e] by auto
  next
    case (Inr img)
    have "(alt, u) \<noteq> q"
    proof
      assume "(alt, u) = q"
      then have "isl (fst (new_ImageContent ev u' alt' w))"
        using q assms(2) new_ImageContent_fails_iff[of ev u' alt' w] by auto
      then show False using n Inr by simp
    qed
    then have "(alt, u) \<in> set ps" using Cons.prems by auto
    then obtain p where "fst (build_images ev ps w') = Inl (ValueError p)"
      using Cons.IH[of w'] by blast
    then show ?thesis using q n Inr by (cases "build_images ev ps w'") auto
  qed
qed


text \<open>
  Claim C10. Creating an ImageContent runs \<open>validate_url\<close>, HEAD probe included: it raises
  exactly when the URL is empty, has no http(s) prefix or the probe fails, the error is a
  ValueError, and no download (GET) has been made. When the image list is not built yet
  and one discovered URL cannot pass validation, \<open>get_images\<close> raises a ValueError as a
  whole: no list is returned or stored, and nothing has been downloaded.
\<close>

theorem image_construction_validates:
  "(isl (fst (new_ImageContent ev u alt w)) \<longleftrightarrow>
      u = [] \<or> (\<not> startswith u ''http://'' \<and> \<not> startswith u ''https://'')
      \<or> \<not> head_ok ev (requests w) u) \<and>
   (\<forall>e. fst (new_ImageContent ev u alt w) = Inl e \<longrightarrow>
      (\<exists>p. e = ValueError p) \<and>
      filter is_get (requests (snd (new_ImageContent ev u alt w))) = filter is_get (requests w)) \<and>
   (images s = None \<and>
    (\<exists>(a, v) \<in> set (extract_images s).
       v = [] \<or> (\<not> startswith v ''http://'' \<and> \<not> startswith v ''https://'')
       \<or> (\<forall>h. \<not> head_ok ev h v))
    \<longrightarrow> (\<exists>p. fst (get_images ev s w) = Inl (ValueError p)) \<and>
        images (fst (snd (get_images ev s w))) = None \<and>
        filter is_get (requests (snd (snd (get_images ev s w)))) = filter is_get (requests w))"
proof -
  have one: "filter is_get (requests (snd (new_ImageContent ev u alt w))) = filter is_get (requests w)"
    using new_ImageContent_requests[of ev u alt w] by (auto simp: is_get_def)
  have many: "(\<exists>p. fst (get_images ev s w) = Inl (ValueError p)) \<and>
        images (fst (snd (get_images ev s w))) = None \<and>
        filter is_get (requests (snd (snd (get_images ev s w)))) = filter is_get (requests w)"
    if none: "images s = None"
      and bad: "\<exists>(a, v) \<in> set (extract_images s).
       v = [] \<or> (\<not> startswith v ''http://'' \<and> \<not> startswith v ''https://'')
       \<or> (\<forall>h. \<not> head_ok ev h v)"
  proof -
    obtain a v where av: "(a, v) \<in> set (extract_images s)"
      and v: "v = [] \<or> (\<not> startswith v ''http://'' \<and> \<not> startswith v ''https://'')
       \<or> (\<forall>h. \<not> head_ok ev h v)"
      using bad by blast
    obtain p where p: "fst (build_images ev (extract_images s) w) = Inl (ValueError p)"
      using build_images_aborts[OF av v] by blast
    obtain w' where b: "build_images ev (extract_images s) w = (Inl (ValueError p), w')"
      using p by (cases "build_images ev (extract_images s) w") simp
    have g: "get_images ev s w = (Inl (ValueError p), s, w')"
      by (simp add: get_images_def none b)
    have "filter is_get (requests w') = filter is_get (requests w)"
      using build_images_gets[of ev "extract_images s" w] b by simp
    then show ?thesis using g none by simp
  qed
  show ?thesis
    using new_ImageContent_fails_iff[of ev u alt w] new_ImageContent_error_kind[of ev u alt w]
      one many by blast
qed

theorem image_construction_validates_witness:
  "images page_gone = None \<and>
   (''G'', ''https://x.com/gone.png'') \<in> set (extract_images page_gone) \<and>
   (\<forall>h. \<not> head_ok env_gone h ''https://x.com/gone.png'') \<and>
   (\<exists>p. fst (get_images env_gone page_gone world0) = Inl (ValueError p)) \<and>
   images (fst (snd (get_images env_gone page_gone world0))) = None \<and>
   filter is_get (requests (snd (snd (get_images env_gone page_gone world0)))) = []"
proof -
  have none: "images page_gone = None"
    by code_simp
  have mem: "(''G'', ''https://x.com/gone.png'') \<in> set (extract_images page_gone)"
    by code_simp
  have gone: "\<forall>h. \<not> head_ok env_gone h ''https://x.com/gone.png''"
    by (simp add: env_gone_def)
  have hyp: "images page_gone = None \<and>
    (\<exists>(a, v) \<in> set (extract_images page_gone).
       v = [] \<or> (\<not> startswith v ''http://'' \<and> \<not> startswith v ''https://'')
       \<or> (\<forall>h. \<not> head_ok env_gone h v))"
    using none mem gone by blast
  have w: "filter is_get (requests world0) = []"
    by code_simp
  from image_construction_validates[of env_gone "[]" "[]" world0 page_gone,
      THEN conjunct2, THEN conjunct2, rule_format, OF hyp] none mem gone w
  show ?thesis by simp
qed

section \<open>Content region and image references\<close>

lemma collect_images_eq:
  "collect_images ts acc = acc @ map image_pair (filter has_source ts)"
  by (induction ts arbitrary: acc)
     (auto simp: image_pair_def has_source_def Let_def split: option.splits)

text \<open>
  Claim C9, as amended. \<open>extract_images\<close> scans the descendants of the whole document,
  whatever region \<open>extract_content\<close> stored, and returns in document order one pair for
  each \<open>img\<close> tag whose \<open>src\<close> attribute is present and not empty, with \<open>Image\<close>
  as the alt text when \<open>alt\<close> is absent. Nothing is removed, so a URL that occurs twice
  gives two entries.
\<close>

theorem extract_images_whole_document:
  "extract_images s =
     map image_pair (filter has_source (filter (is_tag ''img'') (soup_descendants (soup s)))) \<and>
   extract_images (s\<lparr>content := r\<rparr>) = extract_images s"
  by (simp add: extract_images_def collect_images_eq find_all_def)

text \<open>
  Claim C9 as stated fails: an \<open>img\<close> tag that has a \<open>src\<close> attribute with the empty
  string as value gives no pair.
\<close>

theorem extract_images_empty_src_counterexample:
  "find_all ''img'' (soup page_empty_src) = [img_empty_src] \<and>
   tag_get img_empty_src ''src'' = Some [] \<and>
   extract_images page_empty_src = [] \<and>
   spec_extract_images (soup page_empty_src) = [(''A'', [])] \<and>
   extract_images page_empty_src \<noteq> spec_extract_images (soup page_empty_src)"
  by code_simp

text \<open>
  Claim C4, as amended. \<open>extract_content\<close> is a function of the document and returns, and
  stores, the first \<open>article\<close> tag in document order; else the first \<open>div\<close> tag whose
  class tokens include \<open>content\<close>; else the first \<open>body\<close> tag, if there is one.
\<close>

theorem extract_content_priority:
  "extract_content s =
     (let r = (case find_tag ''article'' (soup s) of
                 Some a \<Rightarrow> Some a
               | None \<Rightarrow>
                   (case find_tag_class ''div'' ''content'' (soup s) of
                      Some d \<Rightarrow> Some d
                    | None \<Rightarrow> body (soup s)))
      in (Inr r, s\<lparr>content := r\<rparr>))"
  by (simp add: extract_content_def py_or_def Let_def split: option.splits)

text \<open>
  Claim C4 as stated fails: a \<open>section\<close> element with class \<open>content\<close> is not selected,
  the body is.
\<close>

theorem extract_content_any_tag_counterexample:
  "find_tag ''article'' (soup page_section) = None \<and>
   List.find (has_class ''content'') (soup_descendants (soup page_section)) = Some section_content \<and>
   spec_extract_region (soup page_section) = Some section_content \<and>
   fst (extract_content page_section) = Inr (body (soup page_section)) \<and>
   fst (extract_content page_section) \<noteq> Inr (spec_extract_region (soup page_section))"
  by code_simp

lemma find_tag_class_none:
  "List.find (has_class tok) ns = None \<Longrightarrow> List.find (\<lambda>x. is_tag nm x \<and> has_class tok x) ns = None"
  by (auto simp: find_None_iff)

text \<open>
  Claim C2, as amended. For a document with no article, no element with the class token
  \<open>content\<close> and no body, \<open>extract_content\<close> raises nothing: it returns None and stores
  None as the region.
\<close>

theorem extract_content_no_region:
  assumes "find_tag ''article'' (soup s) = None"
    and "List.find (has_class ''content'') (soup_descendants (soup s)) = None"
    and "body (soup s) = None"
  shows "extract_content s = (Inr None, s\<lparr>content := None\<rparr>)"
  using assms find_tag_class_none[of "''content''" "soup_descendants (soup s)" "''div''"]
  by (simp add: extract_content_def py_or_def find_tag_class_def)

theorem extract_content_no_region_witness:
  "find_tag ''article'' (soup (page_of [])) = None \<and>
   List.find (has_class ''content'') (soup_descendants (soup (page_of []))) = None \<and>
   body (soup (page_of [])) = None \<and>
   extract_content (page_of []) = (Inr None, (page_of [])\<lparr>content := None\<rparr>)"
proof -
  have a: "find_tag ''article'' (soup (page_of [])) = None" by code_simp
  have c: "List.find (has_class ''content'') (soup_descendants (soup (page_of []))) = None"
    by code_simp
  have b: "body (soup (page_of [])) = None" by code_simp
  from extract_content_no_region[OF a c b] a c b show ?thesis by simp
qed

text \<open>
  Claim C2 as stated fails: on \<open><p>text</p>\<close>, which has neither article, content
  element nor body, \<open>extract_content\<close> returns None and no error.
\<close>

theorem extract_content_no_error_counterexample:
  "find_tag ''article'' (soup page_bare) = None \<and>
   List.find (has_class ''content'') (soup_descendants (soup page_bare)) = None \<and>
   body (soup page_bare) = None \<and>
   fst (extract_content page_bare) = Inr None \<and>
   \<not> isl (fst (extract_content page_bare))"
  by code_simp

section \<open>Rewriting image references\<close>

lemma process_loop_persisted:
  "\<forall>i \<in> set imgs. has_local_path i \<Longrightarrow>
   \<exists>c'. process_loop ev path save_path fl c imgs w = (Inr c', imgs, w)"
proof (induction imgs arbitrary: c)
  case Nil
  then show ?case by simp
next
  case (Cons i imgs)
  from Cons.prems obtain lp where lp: "local_path i = Some lp" and h: "has_local_path i"
    by (auto simp: has_local_path_def split: option.splits)
  from Cons.prems have rest: "\<forall>j \<in> set imgs. has_local_path j" by simp
  obtain c' where
    "process_loop ev path save_path fl (py_replace c (url i) (py_replace lp path [])) imgs w
       = (Inr c', imgs, w)"
    using Cons.IH[OF rest] by blast
  then show ?case using lp h by simp
qed

text \<open>
  Claim C8. When the image list is built and every image has its local path set (a
  non-empty string, which is what \<open>not image.local_path\<close> tests), \<open>_process_images\<close>
  returns rewritten content and leaves the world as it was: no request is made and no file
  is written. A second run on the same input content, from the state the first run left,
  returns the same content and again changes nothing.
\<close>

theorem process_images_persisted_idempotent:
  assumes "images s = Some imgs" and "\<forall>i \<in> set imgs. has_local_path i"
  shows "case process_images ev s c path images_dir_name fl w of
           (r1, s1, w1) \<Rightarrow>
             (case process_images ev s1 c path images_dir_name fl w1 of
                (r2, s2, w2) \<Rightarrow>
                  (\<exists>c'. r1 = Inr c' \<and> r2 = Inr c') \<and>
                  w1 = w \<and> w2 = w \<and> images s1 = Some imgs \<and> images s2 = Some imgs)"
proof -
  obtain c' where loop:
    "process_loop ev path (os_path_join path images_dir_name) fl c imgs w = (Inr c', imgs, w)"
    using process_loop_persisted[OF assms(2)] by blast
  have s: "s\<lparr>images := Some imgs\<rparr> = s"
    using assms(1) by simp
  have run: "process_images ev s c path images_dir_name fl w = (Inr c', s, w)"
    by (simp add: process_images_def get_images_def assms(1) loop s)
  show ?thesis by (simp add: run assms(1))
qed

theorem process_images_persisted_idempotent_witness:
  "images page_persisted = Some [\<lparr>url = ''https://x.com/a.png'', alt_text = ''A'',
                        local_path = Some ''out/images/a.png''\<rparr>] \<and>
   has_local_path \<lparr>url = ''https://x.com/a.png'', alt_text = ''A'',
                        local_path = Some ''out/images/a.png''\<rparr> \<and>
   snd (snd (process_images env_a_down page_persisted ''x https://x.com/a.png y'' ''out'' ''images'' False world0)) = world0 \<and>
   fst (process_images env_a_down page_persisted ''x https://x.com/a.png y'' ''out'' ''images'' False world0)
     = Inr ''x /images/a.png y''"
proof -
  let ?i = "\<lparr>url = ''https://x.com/a.png'', alt_text = ''A'',
                        local_path = Some ''out/images/a.png''\<rparr>"
  have a: "images page_persisted = Some [?i]" by code_simp
  have b: "\<forall>i \<in> set [?i]. has_local_path i" by (simp add: has_local_path_def)
  have v: "fst (process_images env_a_down page_persisted ''x https://x.com/a.png y'' ''out'' ''images'' False world0)
     = Inr ''x /images/a.png y''" by code_simp
  from process_images_persisted_idempotent[where ev = env_a_down
      and c = "''x https://x.com/a.png y''" and path = "''out''"
      and images_dir_name = "''images''" and fl = False and w = world0, OF a b] a b v
  show ?thesis by (auto split: prod.splits)
qed

text \<open>
  Claim C1, evaluated on the code. The page has two images and the download of the first
  fails. \<open>_download\<close> catches the transport error and returns None, but \<open>save\<close> has
  already opened the target file and \<open>f.write(None)\<close> raises TypeError: the rewrite ends
  with this error, an empty file exists at the first image's path, and the second image is
  never downloaded.
\<close>

theorem failed_download_aborts_rewrite:
  "case process_images env_a_down page_two_images
          ''x https://x.com/a.png y https://x.com/b.png'' ''out'' ''images'' False world0 of
     (r, s, w) \<Rightarrow>
       r = Inl TypeError \<and>
       files w ''out/images/a.png'' = Some [] \<and>
       files w ''out/images/b.png'' = None \<and>
       requests w = [Head ''https://x.com/a.png'', Head ''https://x.com/b.png'',
                     Get ''https://x.com/a.png'']"
  by code_simp

text \<open>
  Claim C3, evaluated on the code. With the default output directory \<open>output\<close> and an
  image at \<open>https://example.com/output/a.png\<close>, the image is saved at
  \<open>output/images/output/a.png\<close> and \<open>local_path.replace(path, "")\<close> removes both
  occurrences of \<open>output\<close>: the content refers to \<open>/images//a.png\<close>, where stripping
  the prefix only gives \<open>/images/output/a.png\<close>.
\<close>

theorem rewrite_removes_every_base_dir_occurrence:
  "(case process_images env_up page_output_dir ''![A](https://example.com/output/a.png)''
           ''output'' ''images'' False world0 of
      (r, s, w) \<Rightarrow>
        r = Inr ''![A](/images//a.png)'' \<and>
        images s = Some [\<lparr>url = ''https://example.com/output/a.png'', alt_text = ''A'',
                          local_path = Some ''output/images/output/a.png''\<rparr>]) \<and>
   spec_rewrite ''![A](https://example.com/output/a.png)'' ''https://example.com/output/a.png''
     ''output/images/output/a.png'' ''output'' = ''![A](/images/output/a.png)''"
  by code_simp

end
